theory Spec2Isabelle
  imports Main
begin

section \<open>Settings and option resolution of the storage client (storage/client.go)\<close>

subsection \<open>Pointers, slices and the settings struct\<close>

text \<open>
  Go passes \<^verbatim>\<open>*settings\<close> pointers around and the options assign through them, so the
  settings structs live in an explicit store: the list of all settings structs
  allocated so far, a struct's address being its index. A pointer is \<open>None\<close> for
  \<^verbatim>\<open>nil\<close> and \<open>Some a\<close> for the address \<open>a\<close>.

  The \<^verbatim>\<open>retryConfig\<close> structs and the backing arrays of the slices are declared and
  filled outside this file, and no function of this file reads or writes them: a
  \<^verbatim>\<open>*retryConfig\<close> is therefore only its address, and a slice only its descriptor
  (backing array, length, capacity), which is what a Go assignment copies.
\<close>

type_synonym addr = nat

type_synonym ptr = "addr option"

record slice =
  array :: ptr
  len :: nat
  cap :: nat

definition nil_slice :: slice where
  "nil_slice = \<lparr>array = None, len = 0, cap = 0\<rparr>"

record settings =
  retry :: ptr
  gax :: slice
  idempotent :: bool
  clientOption :: slice

text \<open>The zero value \<^verbatim>\<open>settings{}\<close>: nil pointer, nil slices, false.\<close>

definition zero_settings :: settings where
  "zero_settings = \<lparr>retry = None, gax = nil_slice, idempotent = False, clientOption = nil_slice\<rparr>"

type_synonym store = "settings list"

text \<open>
  Dereferencing \<^verbatim>\<open>nil\<close> is a run-time panic in Go. An address beyond the store cannot
  arise in Go (there are no dangling pointers); the model reports it as an error of
  its own, so that every function below is total.
\<close>

datatype error = NilDereference | InvalidAddress

text \<open>\<^verbatim>\<open>*p\<close>: reading the struct a pointer refers to.\<close>

definition load :: "ptr \<Rightarrow> store \<Rightarrow> error + settings" where
  "load p h = (case p of
      None \<Rightarrow> Inl NilDereference
    | Some a \<Rightarrow> if a < length h then Inr (h ! a) else Inl InvalidAddress)"

text \<open>\<^verbatim>\<open>p.f = v\<close>: assigning one field through a pointer; \<open>upd\<close> is the field update.\<close>

definition assign :: "ptr \<Rightarrow> (settings \<Rightarrow> settings) \<Rightarrow> store \<Rightarrow> error + store" where
  "assign p upd h = (case p of
      None \<Rightarrow> Inl NilDereference
    | Some a \<Rightarrow> if a < length h then Inr (h[a := upd (h ! a)]) else Inl InvalidAddress)"

text \<open>
  A variable whose address is taken and returned (\<^verbatim>\<open>s := &settings{}\<close>, \<^verbatim>\<open>cs := *defaults\<close>
  with \<^verbatim>\<open>return &cs\<close>) is a new struct of the store.
\<close>

definition new :: "settings \<Rightarrow> store \<Rightarrow> addr \<times> store" where
  "new v h = (length h, h @ [v])"

subsection \<open>The options\<close>

text \<open>
  \<^verbatim>\<open>storageOption\<close> is an interface with the single method \<^verbatim>\<open>Apply\<close>; the file declares
  four implementations, \<^verbatim>\<open>*gaxOption\<close>, \<^verbatim>\<open>*retryOption\<close>, \<^verbatim>\<open>*idempotentOption\<close> and
  \<^verbatim>\<open>*clientOption\<close>, each a struct with one field, built by one constructor function
  and only read afterwards. An option is modelled by its dynamic type and the value
  of that field. A \<^verbatim>\<open>nil\<close> interface value or receiver is not an option: no constructor
  returns one.
\<close>

datatype storageOption =
    GaxOption slice
  | RetryOption ptr
  | IdempotentOption bool
  | ClientOption slice

definition withGAXOptions :: "slice \<Rightarrow> storageOption" where
  "withGAXOptions opts = GaxOption opts"

definition withRetryConfig :: "ptr \<Rightarrow> storageOption" where
  "withRetryConfig rc = RetryOption rc"

text \<open>
  The Go function is called \<^verbatim>\<open>idempotent\<close>, like the field of \<^verbatim>\<open>settings\<close>; the record
  field keeps the name here.
\<close>

definition idempotent_opt :: "bool \<Rightarrow> storageOption" where
  "idempotent_opt i = IdempotentOption i"

definition withClientOptions :: "slice \<Rightarrow> storageOption" where
  "withClientOptions opts = ClientOption opts"

fun Apply :: "storageOption \<Rightarrow> ptr \<Rightarrow> store \<Rightarrow> error + store" where
  "Apply (GaxOption opts) s h = assign s (\<lambda>c. c\<lparr>gax := opts\<rparr>) h"
| "Apply (RetryOption rc) s h = assign s (\<lambda>c. c\<lparr>retry := rc\<rparr>) h"
| "Apply (IdempotentOption idempotency) s h = assign s (\<lambda>c. c\<lparr>idempotent := idempotency\<rparr>) h"
| "Apply (ClientOption opts) s h = assign s (\<lambda>c. c\<lparr>clientOption := opts\<rparr>) h"

subsection \<open>Resolution\<close>

text \<open>\<^verbatim>\<open>for _, o := range opts { o.Apply(s) }\<close>; a panic ends the loop.\<close>

fun resolveOptions :: "ptr \<Rightarrow> storageOption list \<Rightarrow> store \<Rightarrow> error + store" where
  "resolveOptions s [] h = Inr h"
| "resolveOptions s (o1 # opts) h =
     (case Apply o1 s h of
        Inl e \<Rightarrow> Inl e
      | Inr h' \<Rightarrow> resolveOptions s opts h')"

definition initSettings :: "storageOption list \<Rightarrow> store \<Rightarrow> error + (ptr \<times> store)" where
  "initSettings opts h =
     (case new zero_settings h of (s, h1) \<Rightarrow>
        (case resolveOptions (Some s) opts h1 of
           Inl e \<Rightarrow> Inl e
         | Inr h2 \<Rightarrow> Inr (Some s, h2)))"

definition callSettings :: "ptr \<Rightarrow> storageOption list \<Rightarrow> store \<Rightarrow> error + (ptr \<times> store)" where
  "callSettings defaults opts h =
     (case defaults of
        None \<Rightarrow> Inr (None, h)
      | Some d \<Rightarrow>
          (case load defaults h of
             Inl e \<Rightarrow> Inl e
           | Inr v \<Rightarrow>
               (case new v h of (cs, h1) \<Rightarrow>
                  (case resolveOptions (Some cs) opts h1 of
                     Inl e \<Rightarrow> Inl e
                   | Inr h2 \<Rightarrow> Inr (Some cs, h2)))))"

subsection \<open>Last writer wins, as the specification words it\<close>

text \<open>
  What an option writes into each field, if anything: \<open>Some v\<close> when the option
  writes \<open>v\<close> into the field, \<open>None\<close> when it does not write the field.
\<close>

fun retry_write :: "storageOption \<Rightarrow> ptr option" where
  "retry_write (RetryOption rc) = Some rc"
| "retry_write _ = None"

fun gax_write :: "storageOption \<Rightarrow> slice option" where
  "gax_write (GaxOption opts) = Some opts"
| "gax_write _ = None"

fun idempotent_write :: "storageOption \<Rightarrow> bool option" where
  "idempotent_write (IdempotentOption i) = Some i"
| "idempotent_write _ = None"

fun clientOption_write :: "storageOption \<Rightarrow> slice option" where
  "clientOption_write (ClientOption opts) = Some opts"
| "clientOption_write _ = None"

text \<open>
  The payload of the last option of the sequence that writes a field (\<open>w\<close> says what
  each option writes into it), or \<open>None\<close> when no option of the sequence does.
\<close>

definition last_write :: "(storageOption \<Rightarrow> 'v option) \<Rightarrow> storageOption list \<Rightarrow> 'v option" where
  "last_write w opts = (case List.map_filter w opts of [] \<Rightarrow> None | v # vs \<Rightarrow> Some (last (v # vs)))"

text \<open>
  The specification's result of resolving \<open>opts\<close> on the settings \<open>S\<close>: each field holds
  the payload of its last writer, and keeps its value in \<open>S\<close> when it has none.
\<close>

definition last_writer_wins :: "settings \<Rightarrow> storageOption list \<Rightarrow> settings" where
  "last_writer_wins S opts =
     \<lparr>retry = (case last_write retry_write opts of None \<Rightarrow> retry S | Some v \<Rightarrow> v),
      gax = (case last_write gax_write opts of None \<Rightarrow> gax S | Some v \<Rightarrow> v),
      idempotent = (case last_write idempotent_write opts of None \<Rightarrow> idempotent S | Some v \<Rightarrow> v),
      clientOption = (case last_write clientOption_write opts of None \<Rightarrow> clientOption S | Some v \<Rightarrow> v)\<rparr>"

section \<open>Properties\<close>

subsection \<open>Auxiliary facts\<close>

lemma Apply_live:
  "a < length h \<Longrightarrow> \<exists>upd. Apply o1 (Some a) h = Inr (h[a := upd (h ! a)])"
  by (cases o1) (auto simp: assign_def)

lemma last_write_Nil: "last_write w [] = None"
  by (simp add: last_write_def)

lemma last_write_Cons:
  "last_write w (o1 # opts) = (case last_write w opts of None \<Rightarrow> w o1 | Some v \<Rightarrow> Some v)"
  by (cases "w o1"; cases "List.map_filter w opts")
     (simp_all add: last_write_def)

lemma last_writer_wins_Nil: "last_writer_wins S [] = S"
  by (simp add: last_writer_wins_def last_write_Nil)

lemma last_writer_wins_Cons:
  "last_writer_wins S (GaxOption v # opts) = last_writer_wins (S\<lparr>gax := v\<rparr>) opts"
  "last_writer_wins S (RetryOption r # opts) = last_writer_wins (S\<lparr>retry := r\<rparr>) opts"
  "last_writer_wins S (IdempotentOption i # opts) = last_writer_wins (S\<lparr>idempotent := i\<rparr>) opts"
  "last_writer_wins S (ClientOption v # opts) = last_writer_wins (S\<lparr>clientOption := v\<rparr>) opts"
  by (simp_all add: last_writer_wins_def last_write_Cons split: option.splits)

lemma resolveOptions_live:
  "a < length h \<Longrightarrow>
   resolveOptions (Some a) opts h = Inr (h[a := last_writer_wins (h ! a) opts])"
proof (induction opts arbitrary: h)
  case Nil
  then show ?case by (simp add: last_writer_wins_Nil)
next
  case (Cons o1 opts)
  then show ?case
    by (cases o1) (simp_all add: assign_def last_writer_wins_Cons)
qed

lemma resolveOptions_total:
  "a < length h \<Longrightarrow> \<exists>h'. resolveOptions (Some a) opts h = Inr h' \<and> length h' = length h"
  by (simp add: resolveOptions_live)

lemma callSettings_live:
  "d < length h \<Longrightarrow>
   callSettings (Some d) opts h = Inr (Some (length h), h @ [last_writer_wins (h ! d) opts])"
  by (simp add: callSettings_def load_def new_def resolveOptions_live)

lemma initSettings_result:
  "initSettings opts h = Inr (Some (length h), h @ [last_writer_wins zero_settings opts])"
  by (simp add: initSettings_def new_def resolveOptions_live)

lemma last_write_none:
  "\<forall>x \<in> set opts. w x = None \<Longrightarrow> last_write w opts = None"
  by (induction opts) (simp_all add: last_write_Nil last_write_Cons)

lemma last_write_decomp:
  "w o1 = Some v \<Longrightarrow> \<forall>x \<in> set post. w x = None \<Longrightarrow> last_write w (pre @ o1 # post) = Some v"
  by (induction pre) (simp_all add: last_write_Cons last_write_none)

lemma foldl_Apply:
  "foldl (\<lambda>r o1. case r of Inl e \<Rightarrow> Inl e | Inr h1 \<Rightarrow> Apply o1 s h1) r opts =
   (case r of Inl e \<Rightarrow> Inl e | Inr h \<Rightarrow> resolveOptions s opts h)"
  by (induction opts arbitrary: r) (auto split: sum.splits)

subsection \<open>The call-scoped builder leaves the defaults alone\<close>

text \<open>
  Claim C1. For defaults \<open>D\<close> that are not nil (a settings struct of the store, at
  address \<open>d\<close>) and every option sequence, \<open>callSettings\<close> returns a pointer to a
  struct other than \<open>D\<close>, and afterwards every struct that existed before the call is
  what it was; in particular the fields \<open>retry\<close>, \<open>gax\<close>, \<open>idempotent\<close> and
  \<open>clientOption\<close> of \<open>D\<close> have their values of before the call.
\<close>

theorem callSettings_frame:
  assumes "d < length h"
  shows "\<exists>p h'. callSettings (Some d) opts h = Inr (Some p, h') \<and> p \<noteq> d \<and>
           take (length h) h' = h \<and>
           retry (h' ! d) = retry (h ! d) \<and> gax (h' ! d) = gax (h ! d) \<and>
           idempotent (h' ! d) = idempotent (h ! d) \<and>
           clientOption (h' ! d) = clientOption (h ! d)"
  using assms by (simp add: callSettings_live nth_append)

theorem callSettings_frame_witness:
  "(0::nat) < length [zero_settings] \<and>
   (\<exists>p h'. callSettings (Some 0) [idempotent_opt True, withRetryConfig (Some 7)] [zero_settings]
              = Inr (Some p, h') \<and>
      p \<noteq> 0 \<and> retry (h' ! 0) = None \<and> idempotent (h' ! 0) = False)"
proof -
  have live: "(0::nat) < length [zero_settings]" by simp
  from callSettings_frame [OF live, of "[idempotent_opt True, withRetryConfig (Some 7)]"]
  show ?thesis by (auto simp: zero_settings_def)
qed

subsection \<open>Last writer wins\<close>

text \<open>
  Claim C2. Resolving the options \<open>opts\<close> on the settings at address \<open>a\<close> succeeds and
  changes that struct only, into the specification's \<open>last_writer_wins\<close>: for each of
  the four fields, when \<open>opts\<close> is \<open>pre @ o # post\<close> with \<open>o\<close> writing the field and no
  option of \<open>post\<close> writing it, the field holds the payload of \<open>o\<close>; when no option of
  \<open>opts\<close> writes the field, it keeps its value. The options are applied one after the
  other in the order of the sequence: the result is the left fold of \<open>Apply\<close> over it.
\<close>

theorem resolveOptions_last_writer_wins:
  assumes "a < length h"
  shows "\<exists>h'. resolveOptions (Some a) opts h = Inr h' \<and>
           h' = h[a := last_writer_wins (h ! a) opts] \<and>
           (\<forall>pre rc post. opts = pre @ RetryOption rc # post \<and>
                (\<forall>x \<in> set post. retry_write x = None) \<longrightarrow> retry (h' ! a) = rc) \<and>
           ((\<forall>x \<in> set opts. retry_write x = None) \<longrightarrow> retry (h' ! a) = retry (h ! a)) \<and>
           (\<forall>pre v post. opts = pre @ GaxOption v # post \<and>
                (\<forall>x \<in> set post. gax_write x = None) \<longrightarrow> gax (h' ! a) = v) \<and>
           ((\<forall>x \<in> set opts. gax_write x = None) \<longrightarrow> gax (h' ! a) = gax (h ! a)) \<and>
           (\<forall>pre i post. opts = pre @ IdempotentOption i # post \<and>
                (\<forall>x \<in> set post. idempotent_write x = None) \<longrightarrow> idempotent (h' ! a) = i) \<and>
           ((\<forall>x \<in> set opts. idempotent_write x = None) \<longrightarrow>
                idempotent (h' ! a) = idempotent (h ! a)) \<and>
           (\<forall>pre v post. opts = pre @ ClientOption v # post \<and>
                (\<forall>x \<in> set post. clientOption_write x = None) \<longrightarrow> clientOption (h' ! a) = v) \<and>
           ((\<forall>x \<in> set opts. clientOption_write x = None) \<longrightarrow>
                clientOption (h' ! a) = clientOption (h ! a)) \<and>
           resolveOptions (Some a) opts h =
             foldl (\<lambda>r o1. case r of Inl e \<Rightarrow> Inl e | Inr h1 \<Rightarrow> Apply o1 (Some a) h1) (Inr h) opts"
proof -
  let ?S = "last_writer_wins (h ! a) opts"
  have r1: "\<forall>pre rc post. opts = pre @ RetryOption rc # post \<and>
                (\<forall>x \<in> set post. retry_write x = None) \<longrightarrow> retry ?S = rc"
    by (simp add: last_writer_wins_def last_write_decomp)
  have r2: "(\<forall>x \<in> set opts. retry_write x = None) \<longrightarrow> retry ?S = retry (h ! a)"
    by (simp add: last_writer_wins_def last_write_none)
  have g1: "\<forall>pre v post. opts = pre @ GaxOption v # post \<and>
                (\<forall>x \<in> set post. gax_write x = None) \<longrightarrow> gax ?S = v"
    by (simp add: last_writer_wins_def last_write_decomp)
  have g2: "(\<forall>x \<in> set opts. gax_write x = None) \<longrightarrow> gax ?S = gax (h ! a)"
    by (simp add: last_writer_wins_def last_write_none)
  have i1: "\<forall>pre i post. opts = pre @ IdempotentOption i # post \<and>
                (\<forall>x \<in> set post. idempotent_write x = None) \<longrightarrow> idempotent ?S = i"
    by (simp add: last_writer_wins_def last_write_decomp)
  have i2: "(\<forall>x \<in> set opts. idempotent_write x = None) \<longrightarrow>
                idempotent ?S = idempotent (h ! a)"
    by (simp add: last_writer_wins_def last_write_none)
  have c1: "\<forall>pre v post. opts = pre @ ClientOption v # post \<and>
                (\<forall>x \<in> set post. clientOption_write x = None) \<longrightarrow> clientOption ?S = v"
    by (simp add: last_writer_wins_def last_write_decomp)
  have c2: "(\<forall>x \<in> set opts. clientOption_write x = None) \<longrightarrow>
                clientOption ?S = clientOption (h ! a)"
    by (simp add: last_writer_wins_def last_write_none)
  have cell: "h[a := ?S] ! a = ?S"
    using assms by simp
  have ord: "resolveOptions (Some a) opts h =
             foldl (\<lambda>r o1. case r of Inl e \<Rightarrow> Inl e | Inr h1 \<Rightarrow> Apply o1 (Some a) h1) (Inr h) opts"
    by (simp add: foldl_Apply)
  have res: "resolveOptions (Some a) opts h = Inr (h[a := ?S])"
    using assms by (rule resolveOptions_live)
  show ?thesis
  proof (intro exI[of _ "h[a := ?S]"] conjI)
    show "resolveOptions (Some a) opts h = Inr (h[a := ?S])" by (rule res)
    show "h[a := ?S] = h[a := ?S]" by (rule refl)
    show "\<forall>pre rc post. opts = pre @ RetryOption rc # post \<and>
                (\<forall>x \<in> set post. retry_write x = None) \<longrightarrow> retry (h[a := ?S] ! a) = rc"
      unfolding cell by (rule r1)
    show "(\<forall>x \<in> set opts. retry_write x = None) \<longrightarrow> retry (h[a := ?S] ! a) = retry (h ! a)"
      unfolding cell by (rule r2)
    show "\<forall>pre v post. opts = pre @ GaxOption v # post \<and>
                (\<forall>x \<in> set post. gax_write x = None) \<longrightarrow> gax (h[a := ?S] ! a) = v"
      unfolding cell by (rule g1)
    show "(\<forall>x \<in> set opts. gax_write x = None) \<longrightarrow> gax (h[a := ?S] ! a) = gax (h ! a)"
      unfolding cell by (rule g2)
    show "\<forall>pre i post. opts = pre @ IdempotentOption i # post \<and>
                (\<forall>x \<in> set post. idempotent_write x = None) \<longrightarrow> idempotent (h[a := ?S] ! a) = i"
      unfolding cell by (rule i1)
    show "(\<forall>x \<in> set opts. idempotent_write x = None) \<longrightarrow>
                idempotent (h[a := ?S] ! a) = idempotent (h ! a)"
      unfolding cell by (rule i2)
    show "\<forall>pre v post. opts = pre @ ClientOption v # post \<and>
                (\<forall>x \<in> set post. clientOption_write x = None) \<longrightarrow>
                clientOption (h[a := ?S] ! a) = v"
      unfolding cell by (rule c1)
    show "(\<forall>x \<in> set opts. clientOption_write x = None) \<longrightarrow>
                clientOption (h[a := ?S] ! a) = clientOption (h ! a)"
      unfolding cell by (rule c2)
    show "resolveOptions (Some a) opts h =
             foldl (\<lambda>r o1. case r of Inl e \<Rightarrow> Inl e | Inr h1 \<Rightarrow> Apply o1 (Some a) h1) (Inr h) opts"
      by (rule ord)
  qed
qed

theorem resolveOptions_last_writer_wins_witness:
  "(0::nat) < length [zero_settings] \<and>
   (\<exists>h'. resolveOptions (Some 0)
           [IdempotentOption True, RetryOption (Some 7), IdempotentOption False, RetryOption (Some 8)]
           [zero_settings] = Inr h' \<and>
         retry (h' ! 0) = Some 8 \<and> idempotent (h' ! 0) = False \<and> gax (h' ! 0) = nil_slice)"
proof -
  let ?opts = "[IdempotentOption True, RetryOption (Some 7), IdempotentOption False,
                RetryOption (Some 8)]"
  have live: "(0::nat) < length [zero_settings]" by simp
  from resolveOptions_last_writer_wins [OF live, of ?opts] obtain h' where
    res: "resolveOptions (Some 0) ?opts [zero_settings] = Inr h'" and
    r: "\<forall>pre rc post. ?opts = pre @ RetryOption rc # post \<and>
          (\<forall>x \<in> set post. retry_write x = None) \<longrightarrow> retry (h' ! 0) = rc" and
    g: "(\<forall>x \<in> set ?opts. gax_write x = None) \<longrightarrow> gax (h' ! 0) = gax ([zero_settings] ! 0)" and
    i: "\<forall>pre i post. ?opts = pre @ IdempotentOption i # post \<and>
          (\<forall>x \<in> set post. idempotent_write x = None) \<longrightarrow> idempotent (h' ! 0) = i"
    by (elim exE conjE)
  have "?opts = [IdempotentOption True, RetryOption (Some 7), IdempotentOption False]
                  @ RetryOption (Some 8) # [] \<and> (\<forall>x \<in> set []. retry_write x = None)"
    by simp
  with r have r': "retry (h' ! 0) = Some 8" by blast
  have "?opts = [IdempotentOption True, RetryOption (Some 7)]
                  @ IdempotentOption False # [RetryOption (Some 8)] \<and>
        (\<forall>x \<in> set [RetryOption (Some 8)]. idempotent_write x = None)"
    by simp
  with i have i': "idempotent (h' ! 0) = False" by blast
  have "\<forall>x \<in> set ?opts. gax_write x = None" by simp
  with g have g': "gax (h' ! 0) = nil_slice" by (simp add: zero_settings_def)
  from live res r' i' g' show ?thesis by blast
qed

subsection \<open>Absent defaults\<close>

text \<open>
  Claim C3. With nil defaults, \<open>callSettings\<close> returns nil for every option sequence: it
  does not panic, and it allocates nothing (the store is returned as it was). Defaults
  that are present and zero-valued give another outcome: a pointer that is not nil.
\<close>

theorem callSettings_nil:
  "callSettings None opts h = Inr (None, h) \<and>
   (\<forall>d. d < length h \<and> h ! d = zero_settings \<longrightarrow>
      (\<exists>p h'. callSettings (Some d) opts h = Inr (Some p, h')))"
proof
  show "callSettings None opts h = Inr (None, h)"
    by (simp add: callSettings_def)
  show "\<forall>d. d < length h \<and> h ! d = zero_settings \<longrightarrow>
      (\<exists>p h'. callSettings (Some d) opts h = Inr (Some p, h'))"
    by (simp add: callSettings_live)
qed

theorem callSettings_nil_witness:
  "callSettings None [IdempotentOption True] [zero_settings] = Inr (None, [zero_settings]) \<and>
   (0::nat) < length [zero_settings] \<and> [zero_settings] ! 0 = zero_settings \<and>
   (\<exists>p h'. callSettings (Some 0) [IdempotentOption True] [zero_settings] = Inr (Some p, h'))"
  using callSettings_nil [of "[IdempotentOption True]" "[zero_settings]"]
  by simp

subsection \<open>One option, one field\<close>

text \<open>
  Claim C4. Applied to a settings struct \<open>S\<close> (the struct at address \<open>a\<close>), each of the
  four options replaces one field of \<open>S\<close> by its payload and does nothing else: the
  store after the call is the store before it with, at \<open>a\<close>, \<open>S\<close> updated in that one
  field. The value written is the payload alone, whatever \<open>S\<close> holds, so no field of
  \<open>S\<close> is read.
\<close>

theorem Apply_writes_one_field:
  assumes "a < length h"
  shows "Apply (GaxOption v) (Some a) h = Inr (h[a := (h ! a)\<lparr>gax := v\<rparr>]) \<and>
         Apply (RetryOption rc) (Some a) h = Inr (h[a := (h ! a)\<lparr>retry := rc\<rparr>]) \<and>
         Apply (IdempotentOption i) (Some a) h = Inr (h[a := (h ! a)\<lparr>idempotent := i\<rparr>]) \<and>
         Apply (ClientOption w) (Some a) h = Inr (h[a := (h ! a)\<lparr>clientOption := w\<rparr>])"
  using assms by (simp add: assign_def)

theorem Apply_writes_one_field_witness:
  "(1::nat) < length [zero_settings, zero_settings] \<and>
   Apply (IdempotentOption True) (Some 1) [zero_settings, zero_settings] =
     Inr [zero_settings,
          \<lparr>retry = None, gax = nil_slice, idempotent = True, clientOption = nil_slice\<rparr>] \<and>
   Apply (RetryOption (Some 3)) (Some 1) [zero_settings, zero_settings] =
     Inr [zero_settings,
          \<lparr>retry = Some 3, gax = nil_slice, idempotent = False, clientOption = nil_slice\<rparr>]"
proof -
  have live: "(1::nat) < length [zero_settings, zero_settings]" by simp
  from Apply_writes_one_field [OF live, of _ "Some 3" True]
  show ?thesis by (simp add: zero_settings_def)
qed

subsection \<open>No options\<close>

text \<open>
  Claim C5. Resolving no option leaves the store, and so the settings \<open>S\<close>, as they are;
  \<open>callSettings\<close> with no option on the settings \<open>S\<close> at address \<open>d\<close> returns a struct
  equal to \<open>S\<close> in each of the four fields.
\<close>

theorem resolveOptions_empty:
  "resolveOptions s [] h = Inr h \<and>
   (\<forall>d. d < length h \<longrightarrow>
      (\<exists>p h'. callSettings (Some d) [] h = Inr (Some p, h') \<and> h' ! p = h ! d \<and>
         retry (h' ! p) = retry (h ! d) \<and> gax (h' ! p) = gax (h ! d) \<and>
         idempotent (h' ! p) = idempotent (h ! d) \<and>
         clientOption (h' ! p) = clientOption (h ! d)))"
  by (simp add: callSettings_live last_writer_wins_Nil)

theorem resolveOptions_empty_witness:
  "resolveOptions (Some 0) [] [zero_settings\<lparr>idempotent := True\<rparr>] =
     Inr [zero_settings\<lparr>idempotent := True\<rparr>] \<and>
   (0::nat) < length [zero_settings\<lparr>idempotent := True\<rparr>] \<and>
   (\<exists>p h'. callSettings (Some 0) [] [zero_settings\<lparr>idempotent := True\<rparr>] = Inr (Some p, h') \<and>
      h' ! p = [zero_settings\<lparr>idempotent := True\<rparr>] ! 0)"
proof -
  have live: "(0::nat) < length [zero_settings\<lparr>idempotent := True\<rparr>]" by simp
  from resolveOptions_empty [of "Some 0" "[zero_settings\<lparr>idempotent := True\<rparr>]"] live
  show ?thesis by blast
qed

subsection \<open>The end-to-end scenario\<close>

text \<open>
  Claim C6. For a retry configuration \<open>R\<close> and defaults (at address \<open>d\<close>) whose
  \<open>idempotent\<close> is false, \<open>callSettings\<close> with the options \<open>withRetryConfig R\<close> and
  \<open>idempotent true\<close> returns settings whose \<open>idempotent\<close> is true and whose \<open>retry\<close> is
  \<open>R\<close>, and the \<open>idempotent\<close> of the defaults is false after the call.
\<close>

theorem callSettings_retry_idempotent:
  assumes "d < length h" and "idempotent (h ! d) = False"
  shows "\<exists>p h'. callSettings (Some d) [withRetryConfig R, idempotent_opt True] h
                   = Inr (Some p, h') \<and>
           idempotent (h' ! p) = True \<and> retry (h' ! p) = R \<and> idempotent (h' ! d) = False"
  using assms
  by (simp add: callSettings_live withRetryConfig_def idempotent_opt_def
        last_writer_wins_Cons last_writer_wins_Nil nth_append)

theorem callSettings_retry_idempotent_witness:
  "(0::nat) < length [zero_settings] \<and> idempotent ([zero_settings] ! 0) = False \<and>
   (\<exists>p h'. callSettings (Some 0) [withRetryConfig (Some 5), idempotent_opt True] [zero_settings]
              = Inr (Some p, h') \<and>
      idempotent (h' ! p) = True \<and> retry (h' ! p) = Some 5 \<and> idempotent (h' ! 0) = False)"
proof -
  have live: "(0::nat) < length [zero_settings]" by simp
  have idem: "idempotent ([zero_settings] ! 0) = False" by (simp add: zero_settings_def)
  from callSettings_retry_idempotent [OF live idem, of "Some 5"] live idem
  show ?thesis by blast
qed

subsection \<open>Resolution is total\<close>

text \<open>
  Claim C9. On a settings struct (the struct at address \<open>a\<close>) and any sequence of
  options, \<open>resolveOptions\<close> returns (it is a terminating recursion over the sequence)
  and returns no error: the result is a store with the same structs allocated. No
  option's \<open>Apply\<close> fails on a settings struct either.
\<close>

theorem resolveOptions_no_error:
  assumes "a < length h"
  shows "(\<exists>h'. resolveOptions (Some a) opts h = Inr h' \<and> length h' = length h) \<and>
         (\<forall>o1. \<exists>h'. Apply o1 (Some a) h = Inr h' \<and> length h' = length h)"
proof
  show "\<exists>h'. resolveOptions (Some a) opts h = Inr h' \<and> length h' = length h"
    using assms by (rule resolveOptions_total)
  show "\<forall>o1. \<exists>h'. Apply o1 (Some a) h = Inr h' \<and> length h' = length h"
  proof
    fix o1
    from Apply_live [OF assms, of o1] obtain upd where
      "Apply o1 (Some a) h = Inr (h[a := upd (h ! a)])" by blast
    then show "\<exists>h'. Apply o1 (Some a) h = Inr h' \<and> length h' = length h" by simp
  qed
qed

theorem resolveOptions_no_error_witness:
  "(0::nat) < length [zero_settings] \<and>
   (\<exists>h'. resolveOptions (Some 0) [GaxOption nil_slice, ClientOption nil_slice, RetryOption None]
            [zero_settings] = Inr h' \<and> length h' = length [zero_settings]) \<and>
   (\<exists>h'. Apply (IdempotentOption True) (Some 0) [zero_settings] = Inr h' \<and>
          length h' = length [zero_settings])"
proof -
  have live: "(0::nat) < length [zero_settings]" by simp
  from resolveOptions_no_error [OF live,
    of "[GaxOption nil_slice, ClientOption nil_slice, RetryOption None]"] live
  show ?thesis by blast
qed

subsection \<open>Construction and call resolve alike\<close>

text \<open>
  Claim C10. For every option sequence, \<open>initSettings\<close> and \<open>callSettings\<close> on
  zero-valued defaults (nil \<open>retry\<close>, nil slices, \<open>idempotent\<close> false) both succeed and
  return structs equal in each of the four fields. Both are the same left fold of
  \<open>Apply\<close> over the option sequence, run on a new struct of the store that starts as
  the zero value for \<open>initSettings\<close> and as a copy of the defaults, whatever they hold,
  for \<open>callSettings\<close>; so each result is the specification's \<open>last_writer_wins\<close> of its
  starting settings, which is also what \<open>resolveOptions\<close> makes of them alone.
\<close>

theorem initSettings_callSettings_zero:
  assumes "d < length h'"
  shows "\<exists>p h1 q h2. initSettings opts h = Inr (Some p, h1) \<and>
           callSettings (Some d) opts h' = Inr (Some q, h2) \<and>
           resolveOptions (Some 0) opts [zero_settings] = Inr [h1 ! p] \<and>
           resolveOptions (Some 0) opts [h' ! d] = Inr [h2 ! q] \<and>
           (h' ! d = zero_settings \<longrightarrow>
              h1 ! p = h2 ! q \<and>
              retry (h1 ! p) = retry (h2 ! q) \<and> gax (h1 ! p) = gax (h2 ! q) \<and>
              idempotent (h1 ! p) = idempotent (h2 ! q) \<and>
              clientOption (h1 ! p) = clientOption (h2 ! q)) \<and>
           p = length h \<and> q = length h' \<and>
           h1 ! p = last_writer_wins zero_settings opts \<and>
           h2 ! q = last_writer_wins (h' ! d) opts \<and>
           foldl (\<lambda>r o1. case r of Inl e \<Rightarrow> Inl e | Inr h3 \<Rightarrow> Apply o1 (Some p) h3)
             (Inr (h @ [zero_settings])) opts = Inr h1 \<and>
           foldl (\<lambda>r o1. case r of Inl e \<Rightarrow> Inl e | Inr h3 \<Rightarrow> Apply o1 (Some q) h3)
             (Inr (h' @ [h' ! d])) opts = Inr h2"
  using assms
  by (simp add: initSettings_result callSettings_live resolveOptions_live foldl_Apply)

theorem initSettings_callSettings_zero_witness:
  "(1::nat) < length [zero_settings\<lparr>idempotent := True\<rparr>, zero_settings] \<and>
   [zero_settings\<lparr>idempotent := True\<rparr>, zero_settings] ! 1 = zero_settings \<and>
   (\<exists>p h1 q h2.
      initSettings [RetryOption (Some 2), IdempotentOption True] [] = Inr (Some p, h1) \<and>
      callSettings (Some 1) [RetryOption (Some 2), IdempotentOption True]
        [zero_settings\<lparr>idempotent := True\<rparr>, zero_settings] = Inr (Some q, h2) \<and>
      h1 ! p = h2 ! q \<and>
      h1 ! p = \<lparr>retry = Some 2, gax = nil_slice, idempotent = True, clientOption = nil_slice\<rparr>)"
proof -
  let ?h = "[zero_settings\<lparr>idempotent := True\<rparr>, zero_settings]"
  let ?opts = "[RetryOption (Some 2), IdempotentOption True]"
  have live: "(1::nat) < length ?h" by simp
  have z: "?h ! 1 = zero_settings" by simp
  have v: "last_writer_wins zero_settings ?opts =
           \<lparr>retry = Some 2, gax = nil_slice, idempotent = True, clientOption = nil_slice\<rparr>"
    by (simp add: last_writer_wins_Cons last_writer_wins_Nil zero_settings_def)
  from initSettings_callSettings_zero [OF live, of ?opts "[]"] obtain p h1 q h2 where
    a: "initSettings ?opts [] = Inr (Some p, h1)" and
    b: "callSettings (Some 1) ?opts ?h = Inr (Some q, h2)" and
    c: "?h ! 1 = zero_settings \<longrightarrow> h1 ! p = h2 ! q \<and>
              retry (h1 ! p) = retry (h2 ! q) \<and> gax (h1 ! p) = gax (h2 ! q) \<and>
              idempotent (h1 ! p) = idempotent (h2 ! q) \<and>
              clientOption (h1 ! p) = clientOption (h2 ! q)" and
    e: "h1 ! p = last_writer_wins zero_settings ?opts"
    by (elim exE conjE)
  from c z have eq: "h1 ! p = h2 ! q" by blast
  from e v have val: "h1 ! p =
      \<lparr>retry = Some 2, gax = nil_slice, idempotent = True, clientOption = nil_slice\<rparr>"
    by simp
  from live z a b eq val show ?thesis by blast
qed

end
